theory Spec2Isabelle
  imports Complex_Main
begin

unbundle bit_operations_syntax

section \<open>Gesture controlled robot: the model of main.py\<close>

text \<open>
  The script main.py reads webcam frames, asks the hand detector for landmarks, turns the
  landmarks of the frame into a list of raised fingers, the number of raised fingers into
  a command string, and the command string into two wheel velocities that it sends to the
  simulator. The model below follows the script from line 34 to line 106. The detector, the
  camera and the simulator are inputs and outputs of the model: a frame arrives with the
  pixel coordinates of its landmarks (the values \<^verbatim>\<open>int(lm.x * w)\<close> and
  \<^verbatim>\<open>int(lm.y * h)\<close> of line 57), and what the script sends is recorded as a list of
  events. The drawing calls (\<^verbatim>\<open>draw_landmarks\<close>, \<^verbatim>\<open>putText\<close>,
  \<^verbatim>\<open>imshow\<close>) send nothing to the robot and are left out of the events.
\<close>

subsection \<open>Data\<close>

text \<open>An entry of \<^verbatim>\<open>lm_list\<close> is the tuple \<^verbatim>\<open>(id, cx, cy)\<close> of line 58,
  with Python integers for the pixel coordinates.\<close>

type_synonym landmark = "nat \<times> int \<times> int"

text \<open>One detected hand, as the script reads it: the pixel coordinates of its landmarks,
  in the detector's order.\<close>

type_synonym hand = "(int \<times> int) list"

text \<open>The only exception the lines 62 to 80 can raise: a list index out of range.\<close>

datatype error = IndexError

definition tip_ids :: "nat list" where
  "tip_ids = [4, 8, 12, 16, 20]"

definition initial_command :: string where
  "initial_command = ''STOP''"

text \<open>The four command strings the script assigns and dispatches on.\<close>

definition commands :: "string list" where
  "commands = [''FORWARD'', ''REVERSE'', ''TURN'', ''STOP'']"

subsection \<open>Building \<^verbatim>\<open>lm_list\<close> (lines 52 to 59)\<close>

text \<open>The inner loop of lines 56 to 58 appends the numbered landmarks of one hand.\<close>

definition append_hand :: "landmark list \<Rightarrow> hand \<Rightarrow> landmark list" where
  "append_hand lm_list hand_landmark =
     lm_list @ map (\<lambda>(id, (cx, cy)). (id, cx, cy)) (enumerate 0 hand_landmark)"

text \<open>\<^verbatim>\<open>results.multi_hand_landmarks\<close> is \<^verbatim>\<open>None\<close> or a list of hands; the test of
  line 53 is false for \<^verbatim>\<open>None\<close> and for the empty list.\<close>

definition collect_landmarks :: "hand list option \<Rightarrow> landmark list" where
  "collect_landmarks multi_hand_landmarks =
     (case multi_hand_landmarks of
        None \<Rightarrow> []
      | Some hands \<Rightarrow> if hands = [] then [] else foldl append_hand [] hands)"

subsection \<open>Raised fingers (lines 63 to 68)\<close>

text \<open>Python's \<^verbatim>\<open>xs[i]\<close> for an index that is not negative (every index of the script
  is one of 3, 4, 6, 8, 10, 12, 14, 16, 18, 20): it raises outside the list.\<close>

definition item :: "'a list \<Rightarrow> nat \<Rightarrow> error + 'a" where
  "item xs i = (if i < length xs then Inr (xs ! i) else Inl IndexError)"

text \<open>Sequencing of computations that may raise.\<close>

definition and_then :: "error + 'a \<Rightarrow> ('a \<Rightarrow> error + 'b) \<Rightarrow> error + 'b" where
  "and_then r k = (case r of Inl e \<Rightarrow> Inl e | Inr v \<Rightarrow> k v)"

text \<open>Line 65: the thumb compares the second components (\<^verbatim>\<open>cx\<close>) of the tip and of
  the landmark one below it.\<close>

definition thumb :: "landmark list \<Rightarrow> error + int" where
  "thumb lm_list =
     and_then (item lm_list (tip_ids ! 0)) (\<lambda>tip.
     and_then (item lm_list (tip_ids ! 0 - 1)) (\<lambda>joint.
       Inr (if fst (snd tip) > fst (snd joint) then 1 else 0)))"

text \<open>Line 68: the other fingers compare the third components (\<^verbatim>\<open>cy\<close>) of the tip
  and of the landmark two below it.\<close>

definition finger :: "nat \<Rightarrow> landmark list \<Rightarrow> error + int" where
  "finger i lm_list =
     and_then (item lm_list (tip_ids ! i)) (\<lambda>tip.
     and_then (item lm_list (tip_ids ! i - 2)) (\<lambda>joint.
       Inr (if snd (snd tip) < snd (snd joint) then 1 else 0)))"

text \<open>The loop of lines 67 and 68 over the values of \<^verbatim>\<open>range(1, 5)\<close>, appending to
  \<^verbatim>\<open>fingers\<close>.\<close>

fun other_fingers :: "nat list \<Rightarrow> landmark list \<Rightarrow> int list \<Rightarrow> error + int list" where
  "other_fingers [] lm_list fingers = Inr fingers"
| "other_fingers (i # rest) lm_list fingers =
     and_then (finger i lm_list) (\<lambda>b. other_fingers rest lm_list (fingers @ [b]))"

definition extract_fingers :: "landmark list \<Rightarrow> error + int list" where
  "extract_fingers lm_list =
     and_then (thumb lm_list) (\<lambda>t. other_fingers [1..<5] lm_list [t])"

subsection \<open>From the fingers to the command (lines 70 to 80)\<close>

definition determine_command :: "int list \<Rightarrow> string \<Rightarrow> string" where
  "determine_command fingers current_command =
     (let total_fingers = count_list fingers 1 in
      if total_fingers = 0 then ''FORWARD''
      else if total_fingers = 1 then ''REVERSE''
      else if total_fingers = 2 then ''TURN''
      else if total_fingers = 5 then ''STOP''
      else current_command)"

text \<open>Lines 62 to 80: nothing happens to the command when \<^verbatim>\<open>lm_list\<close> is empty.\<close>

definition interpret_gesture :: "landmark list \<Rightarrow> string \<Rightarrow> error + string" where
  "interpret_gesture lm_list current_command =
     (if lm_list \<noteq> [] then
        and_then (extract_fingers lm_list) (\<lambda>fingers.
          Inr (determine_command fingers current_command))
      else Inr current_command)"

subsection \<open>Sending the command (lines 83 to 94)\<close>

datatype motor = left_motor | right_motor

text \<open>What the script does towards the robot and at its end: a velocity set on a motor,
  the key q read by \<^verbatim>\<open>waitKey\<close>, and the three calls of lines 104 to 106.\<close>

datatype event =
    SetJointTargetVelocity motor real
  | StopKey
  | CapRelease
  | DestroyAllWindows
  | SimxFinish

text \<open>The chain of lines 83 to 94 has no final \<^verbatim>\<open>else\<close>: another string sends
  nothing.\<close>

definition send_command :: "string \<Rightarrow> event list" where
  "send_command current_command =
     (if current_command = ''FORWARD'' then
        [SetJointTargetVelocity left_motor 2, SetJointTargetVelocity right_motor 2]
      else if current_command = ''REVERSE'' then
        [SetJointTargetVelocity left_motor (- 2), SetJointTargetVelocity right_motor (- 2)]
      else if current_command = ''TURN'' then
        [SetJointTargetVelocity left_motor (- 1), SetJointTargetVelocity right_motor 1]
      else if current_command = ''STOP'' then
        [SetJointTargetVelocity left_motor 0, SetJointTargetVelocity right_motor 0]
      else [])"

subsection \<open>The loop (lines 41 to 101) and the end of the script (lines 104 to 106)\<close>

text \<open>What one turn of the loop reads: whether the camera gave a frame, the hands the
  detector found in it, and the value \<^verbatim>\<open>cv2.waitKey(1)\<close> returns at line 100.\<close>

record frame =
  ret :: bool
  multi_hand_landmarks :: "hand list option"
  wait_key :: int

datatype status = Continue | Break | Raised error

text \<open>One turn of the loop, from the command it starts with: how the turn ends, the command
  after it, and what it sent. An exception of lines 65 to 68 leaves the loop before line 73,
  with the command as it was. Line 100 tests \<^verbatim>\<open>cv2.waitKey(1) & 0xFF == ord('q')\<close>, and
  \<^verbatim>\<open>ord('q')\<close> is 113.\<close>

definition iteration :: "frame \<Rightarrow> string \<Rightarrow> status \<times> string \<times> event list" where
  "iteration f current_command =
     (if \<not> ret f then (Continue, current_command, [])
      else
        let lm_list = collect_landmarks (multi_hand_landmarks f) in
        case interpret_gesture lm_list current_command of
          Inl e \<Rightarrow> (Raised e, current_command, [])
        | Inr c \<Rightarrow>
            if wait_key f AND 255 = 113 then (Break, c, send_command c @ [StopKey])
            else (Continue, c, send_command c))"

text \<open>The loop over the frames that arrive. \<^verbatim>\<open>while True\<close> has no end of its own: the
  status \<open>Continue\<close> after the last frame of the list says that the loop is still
  running.\<close>

fun control_loop :: "frame list \<Rightarrow> string \<Rightarrow> event list \<Rightarrow> status \<times> string \<times> event list" where
  "control_loop [] current_command sent = (Continue, current_command, sent)"
| "control_loop (f # rest) current_command sent =
     (case iteration f current_command of
        (Continue, c, ev) \<Rightarrow> control_loop rest c (sent @ ev)
      | (Break, c, ev) \<Rightarrow> (Break, c, sent @ ev)
      | (Raised e, c, ev) \<Rightarrow> (Raised e, c, sent @ ev))"

text \<open>The script from line 37: the loop, and after a \<^verbatim>\<open>break\<close> the lines 104 to 106.
  An exception ends the script where it is raised.\<close>

definition main :: "frame list \<Rightarrow> status \<times> string \<times> event list" where
  "main frames =
     (case control_loop frames initial_command [] of
        (Break, c, sent) \<Rightarrow> (Break, c, sent @ [CapRelease, DestroyAllWindows, SimxFinish])
      | (Continue, c, sent) \<Rightarrow> (Continue, c, sent)
      | (Raised e, c, sent) \<Rightarrow> (Raised e, c, sent))"

subsection \<open>What follows the key q in what was sent\<close>

fun after_stop_key :: "event list \<Rightarrow> event list" where
  "after_stop_key [] = []"
| "after_stop_key (e # es) = (if e = StopKey then es else after_stop_key es)"

subsection \<open>Sample hands\<close>

text \<open>A closed fist: no tip is right of or above its lower landmark.\<close>

definition fist :: hand where
  "fist = replicate 21 (0, 0)"

text \<open>Index, middle and ring finger raised: the tips 8, 12 and 16 lie above the
  landmarks 6, 10 and 14.\<close>

definition three_up :: hand where
  "three_up =
     [(0, 0), (0, 0), (0, 0), (0, 0), (0, 0), (0, 0), (0, 0),
      (0, 0), (0, - 1), (0, 0), (0, 0), (0, 0), (0, - 1), (0, 0),
      (0, 0), (0, 0), (0, - 1), (0, 0), (0, 0), (0, 0), (0, 0)]"

text \<open>Only the index finger raised.\<close>

definition index_up :: hand where
  "index_up = (replicate 21 (0, 0))[8 := (0, - 1)]"

text \<open>Thumb and index finger raised: the thumb's tip 4 lies right of the landmark 3.\<close>

definition thumb_index_up :: hand where
  "thumb_index_up = (replicate 21 (0, 0))[4 := (5, 0), 8 := (0, - 1)]"

section \<open>Lemmas on the extraction of the fingers\<close>

lemma range_1_5: "[1..<5] = [1, 2, 3, 4]"
  by (simp add: upt_rec)

lemma item_in_range: "i < length xs \<Longrightarrow> item xs i = Inr (xs ! i)"
  by (simp add: item_def)

lemma item_out_of_range: "length xs \<le> i \<Longrightarrow> item xs i = Inl IndexError"
  by (simp add: item_def)

lemma and_then_Inr: "and_then (Inr v) k = k v"
  by (simp add: and_then_def)

lemma and_then_Inl: "and_then (Inl e) k = Inl e"
  by (simp add: and_then_def)

lemma thumb_long:
  "21 \<le> length lm_list \<Longrightarrow>
   thumb lm_list = Inr (if fst (snd (lm_list ! 4)) > fst (snd (lm_list ! 3)) then 1 else 0)"
  by (simp add: thumb_def tip_ids_def item_in_range and_then_Inr)

lemma finger_long:
  assumes "21 \<le> length lm_list"
  shows "finger 1 lm_list = Inr (if snd (snd (lm_list ! 8)) < snd (snd (lm_list ! 6)) then 1 else 0)"
    and "finger 2 lm_list = Inr (if snd (snd (lm_list ! 12)) < snd (snd (lm_list ! 10)) then 1 else 0)"
    and "finger 3 lm_list = Inr (if snd (snd (lm_list ! 16)) < snd (snd (lm_list ! 14)) then 1 else 0)"
    and "finger 4 lm_list = Inr (if snd (snd (lm_list ! 20)) < snd (snd (lm_list ! 18)) then 1 else 0)"
  using assms by (simp_all add: finger_def tip_ids_def item_in_range and_then_Inr)

text \<open>With 21 entries or more every index is inside the list, and the five comparisons
  are the result.\<close>

lemma extract_fingers_long:
  assumes "21 \<le> length lm_list"
  shows "extract_fingers lm_list = Inr
     [if fst (snd (lm_list ! 4)) > fst (snd (lm_list ! 3)) then 1 else 0,
      if snd (snd (lm_list ! 8)) < snd (snd (lm_list ! 6)) then 1 else 0,
      if snd (snd (lm_list ! 12)) < snd (snd (lm_list ! 10)) then 1 else 0,
      if snd (snd (lm_list ! 16)) < snd (snd (lm_list ! 14)) then 1 else 0,
      if snd (snd (lm_list ! 20)) < snd (snd (lm_list ! 18)) then 1 else 0]"
  unfolding extract_fingers_def range_1_5 other_fingers.simps
  by (simp only: thumb_long [OF assms] finger_long [OF assms] and_then_Inr append.simps)

lemma other_fingers_raises:
  "finger 4 lm_list = Inl e \<Longrightarrow> 4 \<in> set idx \<Longrightarrow>
   \<exists>e'. other_fingers idx lm_list fingers = Inl e'"
proof (induction idx arbitrary: fingers)
  case Nil
  then show ?case by simp
next
  case (Cons i idx)
  then show ?case
    by (auto simp: and_then_def split: sum.splits)
qed

text \<open>With fewer than 21 entries the read of index 20 raises, if no earlier read did.\<close>

lemma extract_fingers_short:
  assumes "length lm_list < 21"
  shows "extract_fingers lm_list = Inl IndexError"
proof -
  have "finger 4 lm_list = Inl IndexError"
    using assms by (simp add: finger_def tip_ids_def item_out_of_range and_then_Inl)
  then have "\<exists>e. other_fingers [1..<5] lm_list fs = Inl e" for fs
    by (rule other_fingers_raises) (simp add: range_1_5)
  then have "\<exists>e. extract_fingers lm_list = Inl e"
    by (auto simp: extract_fingers_def and_then_def split: sum.splits)
  then obtain e where "extract_fingers lm_list = Inl e" ..
  then show ?thesis by (cases e) simp
qed

lemma extract_fingers_take: "extract_fingers (take 21 lm_list) = extract_fingers lm_list"
proof (cases "21 \<le> length lm_list")
  case True
  then have "21 \<le> length (take 21 lm_list)" by simp
  then show ?thesis
    by (simp add: extract_fingers_long True)
next
  case False
  then show ?thesis by simp
qed

lemma count_list_le_length: "count_list xs x \<le> length xs"
  by (induction xs) auto

lemma extract_fingers_length:
  "extract_fingers lm_list = Inr fingers \<Longrightarrow> length fingers = 5"
  by (cases "21 \<le> length lm_list") (auto simp: extract_fingers_long extract_fingers_short)

lemma determine_command_fixed_point:
  assumes "\<forall>previous. determine_command fingers previous = previous"
  shows "count_list fingers 1 \<notin> {0, 1, 2, 5}"
proof
  assume "count_list fingers 1 \<in> {0, 1, 2, 5}"
  then have "determine_command fingers ''X'' \<noteq> ''X''"
    by (auto simp: determine_command_def)
  with assms show False by blast
qed

lemma count_five:
  assumes "length fingers = 5" "count_list fingers (x::int) \<notin> {0, 1, 2, 5}"
  shows "count_list fingers x \<in> {3, 4}"
proof -
  have "count_list fingers x \<le> 5"
    using count_list_le_length [of fingers x] assms(1) by simp
  with assms(2) show ?thesis by auto
qed

section \<open>The command of a recognised number of fingers\<close>

text \<open>
  Claim C1. Whatever the previous command is, a list of fingers with no 1 gives FORWARD, with
  one 1 gives REVERSE, with two gives TURN and with five gives STOP. The script's finger
  states are lists of the integers 0 and 1 (1 for a raised finger), and the mapping holds for
  every such list, in particular for the lists of five entries the extraction produces.
\<close>

theorem determine_command_recognised:
  "(count_list fingers 1 = 0 \<longrightarrow> determine_command fingers previous = ''FORWARD'') \<and>
   (count_list fingers 1 = 1 \<longrightarrow> determine_command fingers previous = ''REVERSE'') \<and>
   (count_list fingers 1 = 2 \<longrightarrow> determine_command fingers previous = ''TURN'') \<and>
   (count_list fingers 1 = 5 \<longrightarrow> determine_command fingers previous = ''STOP'') \<and>
   (count_list fingers 1 \<in> {0, 1, 2, 5} \<longrightarrow>
      determine_command fingers previous = determine_command fingers previous')"
  by (auto simp: determine_command_def)

theorem determine_command_recognised_witness:
  "count_list [0, 0, 0, 0, 0 :: int] 1 = 0 \<and>
   determine_command [0, 0, 0, 0, 0] ''TURN'' = ''FORWARD'' \<and>
   count_list [0, 1, 0, 0, 0 :: int] 1 = 1 \<and>
   determine_command [0, 1, 0, 0, 0] ''STOP'' = ''REVERSE'' \<and>
   count_list [0, 1, 1, 0, 0 :: int] 1 = 2 \<and>
   determine_command [0, 1, 1, 0, 0] ''STOP'' = ''TURN'' \<and>
   count_list [1, 1, 1, 1, 1 :: int] 1 = 5 \<and>
   determine_command [1, 1, 1, 1, 1] ''FORWARD'' = ''STOP''"
  using determine_command_recognised [of "[0, 0, 0, 0, 0]" "''TURN''" "''STOP''"]
    determine_command_recognised [of "[0, 1, 0, 0, 0]" "''STOP''" "''TURN''"]
    determine_command_recognised [of "[0, 1, 1, 0, 0]" "''STOP''" "''TURN''"]
    determine_command_recognised [of "[1, 1, 1, 1, 1]" "''FORWARD''" "''TURN''"]
  by simp

section \<open>The command is kept without a hand and with three or four fingers\<close>

text \<open>
  Claim C2. With an empty landmark list (the detector found no hand in the frame: it gave
  \<^verbatim>\<open>None\<close> or no hands) the previous command is returned as it is; a finger
  list with three or four raised fingers returns the previous command as it is; and these
  are the only cases: the lines 62 to 80 return every previous command unchanged exactly
  when the landmark list is empty or the extracted fingers count three or four.
\<close>

theorem interpret_gesture_latches:
  "interpret_gesture [] previous = Inr previous \<and>
   interpret_gesture (collect_landmarks None) previous = Inr previous \<and>
   interpret_gesture (collect_landmarks (Some [])) previous = Inr previous \<and>
   (count_list fingers 1 \<in> {3, 4} \<longrightarrow> determine_command fingers previous = previous) \<and>
   ((\<forall>p. interpret_gesture lm_list p = Inr p) \<longleftrightarrow>
    (lm_list = [] \<or>
     (\<exists>fs. extract_fingers lm_list = Inr fs \<and> count_list fs 1 \<in> {3, 4})))"
proof (intro conjI)
  show "interpret_gesture [] previous = Inr previous"
    by (simp add: interpret_gesture_def)
  show "interpret_gesture (collect_landmarks None) previous = Inr previous"
    by (simp add: interpret_gesture_def collect_landmarks_def)
  show "interpret_gesture (collect_landmarks (Some [])) previous = Inr previous"
    by (simp add: interpret_gesture_def collect_landmarks_def)
  show "count_list fingers 1 \<in> {3, 4} \<longrightarrow> determine_command fingers previous = previous"
    by (auto simp: determine_command_def)
  show "(\<forall>p. interpret_gesture lm_list p = Inr p) \<longleftrightarrow>
    (lm_list = [] \<or> (\<exists>fs. extract_fingers lm_list = Inr fs \<and> count_list fs 1 \<in> {3, 4}))"
  proof
    assume all: "\<forall>p. interpret_gesture lm_list p = Inr p"
    show "lm_list = [] \<or> (\<exists>fs. extract_fingers lm_list = Inr fs \<and> count_list fs 1 \<in> {3, 4})"
    proof (cases "lm_list = []")
      case True
      then show ?thesis by simp
    next
      case False
      show ?thesis
      proof (cases "extract_fingers lm_list")
        case (Inl e)
        with False have "interpret_gesture lm_list ''X'' = Inl e"
          by (simp add: interpret_gesture_def and_then_Inl)
        with all show ?thesis by simp
      next
        case (Inr fs)
        with False have "interpret_gesture lm_list p = Inr (determine_command fs p)" for p
          by (simp add: interpret_gesture_def and_then_Inr)
        with all have "\<forall>p. determine_command fs p = p" by simp
        then have cnt: "count_list fs 1 \<notin> {0, 1, 2, 5}"
          by (rule determine_command_fixed_point)
        have len: "length fs = 5"
          using Inr by (rule extract_fingers_length)
        from len cnt have "count_list fs 1 \<in> {3, 4}"
          by (rule count_five)
        with Inr show ?thesis by blast
      qed
    qed
  next
    assume "lm_list = [] \<or> (\<exists>fs. extract_fingers lm_list = Inr fs \<and> count_list fs 1 \<in> {3, 4})"
    then show "\<forall>p. interpret_gesture lm_list p = Inr p"
      by (auto simp: interpret_gesture_def and_then_Inr determine_command_def)
  qed
qed

theorem interpret_gesture_latches_witness:
  "count_list [0, 1, 1, 1, 0 :: int] 1 \<in> {3, 4} \<and>
   determine_command [0, 1, 1, 1, 0] ''TURN'' = ''TURN'' \<and>
   extract_fingers (collect_landmarks (Some [three_up])) = Inr [0, 1, 1, 1, 0] \<and>
   (\<forall>p. interpret_gesture (collect_landmarks (Some [three_up])) p = Inr p)"
proof -
  have ex: "extract_fingers (collect_landmarks (Some [three_up])) = Inr [0, 1, 1, 1, 0]"
    by code_simp
  have cnt: "count_list [0, 1, 1, 1, 0 :: int] 1 \<in> {3, 4}"
    by simp
  from ex cnt show ?thesis
    using interpret_gesture_latches
      [of "''TURN''" "[0, 1, 1, 1, 0]" "collect_landmarks (Some [three_up])"]
    by blast
qed

section \<open>The velocities of the four commands\<close>

text \<open>
  Claim C3. The dispatch of lines 83 to 94 is a function of the command string alone:
  FORWARD sets the left and the right motor to 2.0, REVERSE sets both to -2.0, TURN sets the
  left motor to -1.0 and the right motor to 1.0, and STOP sets both to 0.0, the left motor
  first each time.
\<close>

theorem send_command_table:
  "send_command ''FORWARD'' =
     [SetJointTargetVelocity left_motor 2, SetJointTargetVelocity right_motor 2] \<and>
   send_command ''REVERSE'' =
     [SetJointTargetVelocity left_motor (- 2), SetJointTargetVelocity right_motor (- 2)] \<and>
   send_command ''TURN'' =
     [SetJointTargetVelocity left_motor (- 1), SetJointTargetVelocity right_motor 1] \<and>
   send_command ''STOP'' =
     [SetJointTargetVelocity left_motor 0, SetJointTargetVelocity right_motor 0]"
  by (simp add: send_command_def)

section \<open>The rules of the five fingers\<close>

text \<open>
  Claim C4. For a landmark list of exactly 21 entries the extraction raises nothing and
  returns five values: the thumb is 1 exactly when the x coordinate of landmark 4 is
  strictly greater than that of landmark 3, and the index, middle, ring and little finger
  are 1 exactly when the y coordinate of the tip (8, 12, 16, 20) is strictly less than
  that of the landmark two below it (6, 10, 14, 18).
\<close>

theorem extract_fingers_rules:
  assumes "length lm_list = 21"
  shows "extract_fingers lm_list = Inr
     [if fst (snd (lm_list ! 4)) > fst (snd (lm_list ! 3)) then 1 else 0,
      if snd (snd (lm_list ! 8)) < snd (snd (lm_list ! 6)) then 1 else 0,
      if snd (snd (lm_list ! 12)) < snd (snd (lm_list ! 10)) then 1 else 0,
      if snd (snd (lm_list ! 16)) < snd (snd (lm_list ! 14)) then 1 else 0,
      if snd (snd (lm_list ! 20)) < snd (snd (lm_list ! 18)) then 1 else 0]"
  using assms by (simp only: extract_fingers_long order_refl)

theorem extract_fingers_rules_witness:
  "length (collect_landmarks (Some [thumb_index_up])) = 21 \<and>
   extract_fingers (collect_landmarks (Some [thumb_index_up])) = Inr [1, 1, 0, 0, 0]"
proof -
  have len: "length (collect_landmarks (Some [thumb_index_up])) = 21"
    by code_simp
  have "extract_fingers (collect_landmarks (Some [thumb_index_up])) = Inr [1, 1, 0, 0, 0]"
    unfolding extract_fingers_rules [OF len] by code_simp
  with len show ?thesis by simp
qed

section \<open>Landmark lists that do not have 21 entries\<close>

text \<open>
  Claim C5, as the script has it. A landmark list that is not empty and has fewer than 21
  entries makes the lines 62 to 68 raise IndexError, the only exception they can raise; the
  exception leaves the loop with the command as it was before the frame, and nothing is sent
  for the frame. A list with more than 21 entries is not refused: the fingers are those of
  its first 21 entries, and the command is determined from them. (An empty list is the
  frame without a hand and raises nothing.)
\<close>

theorem short_list_raises:
  "(lm_list \<noteq> [] \<and> length lm_list < 21 \<longrightarrow>
      interpret_gesture lm_list current_command = Inl IndexError) \<and>
   (ret f \<and> collect_landmarks (multi_hand_landmarks f) \<noteq> [] \<and>
    length (collect_landmarks (multi_hand_landmarks f)) < 21 \<longrightarrow>
      iteration f current_command = (Raised IndexError, current_command, []) \<and>
      control_loop (f # rest) current_command sent = (Raised IndexError, current_command, sent)) \<and>
   (21 < length lm_list \<longrightarrow>
      extract_fingers lm_list = extract_fingers (take 21 lm_list) \<and>
      (\<exists>fingers. extract_fingers lm_list = Inr fingers \<and>
         interpret_gesture lm_list current_command =
           Inr (determine_command fingers current_command)))"
proof (intro conjI impI)
  assume "lm_list \<noteq> [] \<and> length lm_list < 21"
  then show "interpret_gesture lm_list current_command = Inl IndexError"
    by (simp add: interpret_gesture_def extract_fingers_short and_then_Inl)
next
  assume a: "ret f \<and> collect_landmarks (multi_hand_landmarks f) \<noteq> [] \<and>
    length (collect_landmarks (multi_hand_landmarks f)) < 21"
  then have "interpret_gesture (collect_landmarks (multi_hand_landmarks f)) current_command =
      Inl IndexError"
    by (simp add: interpret_gesture_def extract_fingers_short and_then_Inl)
  with a show it: "iteration f current_command = (Raised IndexError, current_command, [])"
    by (simp add: iteration_def)
  then show "control_loop (f # rest) current_command sent =
      (Raised IndexError, current_command, sent)"
    by simp
next
  assume "21 < length lm_list"
  then show "extract_fingers lm_list = extract_fingers (take 21 lm_list)"
    by (simp only: extract_fingers_take)
next
  assume "21 < length lm_list"
  then have long: "21 \<le> length lm_list" and ne: "lm_list \<noteq> []"
    by auto
  from ne show "\<exists>fingers. extract_fingers lm_list = Inr fingers \<and>
         interpret_gesture lm_list current_command =
           Inr (determine_command fingers current_command)"
    by (simp add: interpret_gesture_def extract_fingers_long [OF long] and_then_Inr)
qed

theorem short_list_raises_witness:
  "ret \<lparr>ret = True, multi_hand_landmarks = Some [replicate 3 (0, 0)], wait_key = - 1\<rparr> \<and>
   collect_landmarks (Some [replicate 3 (0, 0)]) \<noteq> [] \<and>
   length (collect_landmarks (Some [replicate 3 (0, 0)])) < 21 \<and>
   iteration \<lparr>ret = True, multi_hand_landmarks = Some [replicate 3 (0, 0)], wait_key = - 1\<rparr>
     ''TURN'' = (Raised IndexError, ''TURN'', []) \<and>
   21 < length (collect_landmarks (Some [fist, index_up])) \<and>
   extract_fingers (collect_landmarks (Some [fist, index_up])) =
     extract_fingers (take 21 (collect_landmarks (Some [fist, index_up])))"
proof -
  have a: "collect_landmarks (Some [replicate 3 (0, 0)]) \<noteq> []"
    by code_simp
  have b: "length (collect_landmarks (Some [replicate 3 (0, 0)])) < 21"
    by code_simp
  have c: "21 < length (collect_landmarks (Some [fist, index_up]))"
    by code_simp
  from a b c show ?thesis
    using short_list_raises [of "collect_landmarks (Some [fist, index_up])" "''TURN''"
        "\<lparr>ret = True, multi_hand_landmarks = Some [replicate 3 (0, 0)], wait_key = - 1\<rparr>"]
    by simp
qed

text \<open>
  Claim C5 as it is written fails for a hand of 22 landmarks: the extraction returns five
  fingers instead of raising, and the frame changes the command from STOP to FORWARD.
\<close>

theorem long_list_counterexample:
  "length (collect_landmarks (Some [replicate 22 (0, 0)])) = 22 \<and>
   extract_fingers (collect_landmarks (Some [replicate 22 (0, 0)])) = Inr [0, 0, 0, 0, 0] \<and>
   iteration \<lparr>ret = True, multi_hand_landmarks = Some [replicate 22 (0, 0)], wait_key = - 1\<rparr>
     ''STOP'' =
     (Continue, ''FORWARD'',
      [SetJointTargetVelocity left_motor 2, SetJointTargetVelocity right_motor 2])"
  by code_simp

section \<open>Lemmas on the loop\<close>

lemma send_command_no_stop_key: "StopKey \<notin> set (send_command c)"
  by (simp add: send_command_def)

lemma iteration_Break:
  "iteration f c = (Break, c', ev) \<Longrightarrow> ev = send_command c' @ [StopKey]"
  by (auto simp: iteration_def Let_def split: if_splits sum.splits)

lemma iteration_Continue:
  "iteration f c = (Continue, c', ev) \<Longrightarrow> StopKey \<notin> set ev"
  by (auto simp: iteration_def Let_def send_command_no_stop_key split: if_splits sum.splits)

lemma control_loop_Break:
  "control_loop frames c sent = (Break, c', sent') \<Longrightarrow>
   \<exists>mid. sent' = sent @ mid @ send_command c' @ [StopKey] \<and> StopKey \<notin> set mid"
proof (induction frames arbitrary: c sent)
  case Nil
  then show ?case by simp
next
  case (Cons f frames)
  obtain st c1 ev where it: "iteration f c = (st, c1, ev)"
    by (cases "iteration f c") auto
  show ?case
  proof (cases st)
    case Continue
    with it Cons.prems have "control_loop frames c1 (sent @ ev) = (Break, c', sent')"
      by simp
    then obtain mid where mid: "sent' = (sent @ ev) @ mid @ send_command c' @ [StopKey]"
        "StopKey \<notin> set mid"
      using Cons.IH by blast
    have "StopKey \<notin> set ev"
      using it Continue iteration_Continue by blast
    with mid have "sent' = sent @ (ev @ mid) @ send_command c' @ [StopKey] \<and>
        StopKey \<notin> set (ev @ mid)"
      by simp
    then show ?thesis by blast
  next
    case Break
    with it Cons.prems have eq: "c1 = c'" "sent' = sent @ ev"
      by simp_all
    from it Break eq have "ev = send_command c' @ [StopKey]"
      using iteration_Break by blast
    with eq have "sent' = sent @ [] @ send_command c' @ [StopKey] \<and> StopKey \<notin> set []"
      by simp
    then show ?thesis by blast
  next
    case (Raised e)
    with it Cons.prems show ?thesis by simp
  qed
qed

lemma after_stop_key_append:
  "StopKey \<notin> set xs \<Longrightarrow> after_stop_key (xs @ StopKey # ys) = ys"
  by (induction xs) auto

lemma determine_command_commands:
  "c \<in> set commands \<Longrightarrow> determine_command fingers c \<in> set commands"
  by (simp add: determine_command_def commands_def Let_def)

lemma iteration_commands:
  "c \<in> set commands \<Longrightarrow> fst (snd (iteration f c)) \<in> set commands"
  by (auto simp: iteration_def Let_def interpret_gesture_def and_then_def
      determine_command_commands split: sum.splits)

lemma control_loop_commands:
  "c \<in> set commands \<Longrightarrow> fst (snd (control_loop frames c sent)) \<in> set commands"
proof (induction frames arbitrary: c sent)
  case Nil
  then show ?case by simp
next
  case (Cons f frames)
  obtain st c1 ev where it: "iteration f c = (st, c1, ev)"
    by (cases "iteration f c") auto
  have c1: "c1 \<in> set commands"
    using iteration_commands [OF Cons.prems, of f] it by simp
  show ?case
  proof (cases st)
    case Continue
    with it c1 show ?thesis by (simp add: Cons.IH)
  next
    case Break
    with it c1 show ?thesis by simp
  next
    case (Raised e)
    with it c1 show ?thesis by simp
  qed
qed

lemma initial_command_commands: "initial_command \<in> set commands"
  by (simp add: initial_command_def commands_def)

lemma determine_command_changes:
  "determine_command fingers c \<noteq> c \<Longrightarrow> count_list fingers 1 \<in> {0, 1, 2, 5}"
  by (auto simp: determine_command_def Let_def split: if_splits)

lemma iteration_changes:
  assumes "fst (snd (iteration f c)) \<noteq> c"
  shows "ret f \<and> (\<exists>fingers.
           extract_fingers (collect_landmarks (multi_hand_landmarks f)) = Inr fingers \<and>
           count_list fingers 1 \<in> {0, 1, 2, 5})"
proof -
  from assms have r: "ret f"
    by (auto simp: iteration_def split: if_splits)
  show ?thesis
  proof (cases "extract_fingers (collect_landmarks (multi_hand_landmarks f))")
    case (Inl e)
    with r have "fst (snd (iteration f c)) = c"
      by (simp add: iteration_def Let_def interpret_gesture_def and_then_def)
    with assms show ?thesis by simp
  next
    case (Inr fingers)
    with r assms have "determine_command fingers c \<noteq> c"
      by (auto simp: iteration_def Let_def interpret_gesture_def and_then_def
          split: if_splits)
    then have "count_list fingers 1 \<in> {0, 1, 2, 5}"
      by (rule determine_command_changes)
    with r Inr show ?thesis by blast
  qed
qed

section \<open>Leaving the loop on the key q\<close>

text \<open>
  Claim C6, as the script has it. When the script ends on the key q, nothing is sent to the
  robot after the key is read: what follows the key is the release of the camera, the
  closing of the windows and the closing of the connection, in this order. The last
  velocities sent are those of the command of the final turn of the loop, sent before the
  key is read, and this command is one of the four.
\<close>

theorem nothing_sent_after_stop_key:
  assumes "main frames = (Break, c, sent)"
  shows "after_stop_key sent = [CapRelease, DestroyAllWindows, SimxFinish] \<and>
         (\<exists>before. sent = before @ send_command c @
            [StopKey, CapRelease, DestroyAllWindows, SimxFinish]) \<and>
         c \<in> set commands"
proof -
  obtain st c1 s1 where cl: "control_loop frames initial_command [] = (st, c1, s1)"
    by (cases "control_loop frames initial_command []") auto
  with assms have st: "st = Break" and c1: "c1 = c"
    and sent: "sent = s1 @ [CapRelease, DestroyAllWindows, SimxFinish]"
    by (cases st; simp add: main_def)+
  from cl st c1 obtain mid where mid: "s1 = mid @ send_command c @ [StopKey]"
      "StopKey \<notin> set mid"
    using control_loop_Break [of frames initial_command "[]" c s1] by auto
  have "StopKey \<notin> set (mid @ send_command c)"
    using mid(2) send_command_no_stop_key by simp
  then have "after_stop_key ((mid @ send_command c) @ StopKey #
      [CapRelease, DestroyAllWindows, SimxFinish]) = [CapRelease, DestroyAllWindows, SimxFinish]"
    by (rule after_stop_key_append)
  with sent mid(1) have one: "after_stop_key sent = [CapRelease, DestroyAllWindows, SimxFinish]"
    by simp
  from sent mid(1) have two: "sent = mid @ send_command c @
      [StopKey, CapRelease, DestroyAllWindows, SimxFinish]"
    by simp
  have three: "c \<in> set commands"
    using control_loop_commands [OF initial_command_commands, of frames "[]"] cl c1 by simp
  from one two three show ?thesis by blast
qed

theorem nothing_sent_after_stop_key_witness:
  "main [\<lparr>ret = True, multi_hand_landmarks = None, wait_key = - 1\<rparr>,
         \<lparr>ret = True, multi_hand_landmarks = Some [index_up], wait_key = 113\<rparr>] =
     (Break, ''REVERSE'',
      [SetJointTargetVelocity left_motor 0, SetJointTargetVelocity right_motor 0,
       SetJointTargetVelocity left_motor (- 2), SetJointTargetVelocity right_motor (- 2),
       StopKey, CapRelease, DestroyAllWindows, SimxFinish]) \<and>
   after_stop_key
      [SetJointTargetVelocity left_motor 0, SetJointTargetVelocity right_motor 0,
       SetJointTargetVelocity left_motor (- 2), SetJointTargetVelocity right_motor (- 2),
       StopKey, CapRelease, DestroyAllWindows, SimxFinish] =
     [CapRelease, DestroyAllWindows, SimxFinish]"
proof -
  have run: "main [\<lparr>ret = True, multi_hand_landmarks = None, wait_key = - 1\<rparr>,
         \<lparr>ret = True, multi_hand_landmarks = Some [index_up], wait_key = 113\<rparr>] =
     (Break, ''REVERSE'',
      [SetJointTargetVelocity left_motor 0, SetJointTargetVelocity right_motor 0,
       SetJointTargetVelocity left_motor (- 2), SetJointTargetVelocity right_motor (- 2),
       StopKey, CapRelease, DestroyAllWindows, SimxFinish])"
    by code_simp
  from run nothing_sent_after_stop_key [OF run] show ?thesis
    by blast
qed

text \<open>
  Claim C6 as it is written fails: with a closed fist in the frame and the key q, the script
  sets both motors to 2.0, reads the key and ends, and no velocity 0.0 is set after the key.
\<close>

theorem no_stop_on_exit_counterexample:
  "main [\<lparr>ret = True, multi_hand_landmarks = Some [fist], wait_key = 113\<rparr>] =
     (Break, ''FORWARD'',
      [SetJointTargetVelocity left_motor 2, SetJointTargetVelocity right_motor 2,
       StopKey, CapRelease, DestroyAllWindows, SimxFinish]) \<and>
   SetJointTargetVelocity left_motor 0 \<notin> set (after_stop_key (snd (snd
     (main [\<lparr>ret = True, multi_hand_landmarks = Some [fist], wait_key = 113\<rparr>])))) \<and>
   SetJointTargetVelocity right_motor 0 \<notin> set (after_stop_key (snd (snd
     (main [\<lparr>ret = True, multi_hand_landmarks = Some [fist], wait_key = 113\<rparr>]))))"
  by code_simp

section \<open>The latched command\<close>

text \<open>
  Claim C8. The command is STOP before the first frame. After every finite sequence of
  frames, however the loop stands then, it is one of the four strings FORWARD, REVERSE,
  TURN and STOP. A turn of the loop that changes the command is a turn with a frame from the
  camera whose extracted fingers count 0, 1, 2 or 5; every other turn leaves the
  command as it was.
\<close>

theorem latched_command_invariant:
  "initial_command = ''STOP'' \<and>
   fst (snd (control_loop frames initial_command sent)) \<in> set commands \<and>
   set commands = {''FORWARD'', ''REVERSE'', ''TURN'', ''STOP''} \<and>
   (fst (snd (iteration f c)) \<noteq> c \<longrightarrow>
      ret f \<and> (\<exists>fingers.
        extract_fingers (collect_landmarks (multi_hand_landmarks f)) = Inr fingers \<and>
        count_list fingers 1 \<in> {0, 1, 2, 5}))"
proof (intro conjI)
  show "initial_command = ''STOP''"
    by (simp add: initial_command_def)
  show "fst (snd (control_loop frames initial_command sent)) \<in> set commands"
    using initial_command_commands by (rule control_loop_commands)
  show "set commands = {''FORWARD'', ''REVERSE'', ''TURN'', ''STOP''}"
    by (simp add: commands_def)
  show "fst (snd (iteration f c)) \<noteq> c \<longrightarrow>
      ret f \<and> (\<exists>fingers.
        extract_fingers (collect_landmarks (multi_hand_landmarks f)) = Inr fingers \<and>
        count_list fingers 1 \<in> {0, 1, 2, 5})"
    using iteration_changes by blast
qed

theorem latched_command_invariant_witness:
  "fst (snd (iteration \<lparr>ret = True, multi_hand_landmarks = Some [index_up], wait_key = - 1\<rparr>
      ''STOP'')) \<noteq> ''STOP'' \<and>
   ret \<lparr>ret = True, multi_hand_landmarks = Some [index_up], wait_key = - 1\<rparr> \<and>
   (\<exists>fingers.
      extract_fingers (collect_landmarks (Some [index_up])) = Inr fingers \<and>
      count_list fingers 1 \<in> {0, 1, 2, 5}) \<and>
   fst (snd (control_loop
      [\<lparr>ret = True, multi_hand_landmarks = Some [index_up], wait_key = - 1\<rparr>,
       \<lparr>ret = True, multi_hand_landmarks = Some [three_up], wait_key = - 1\<rparr>]
      initial_command [])) \<in> set commands"
proof -
  have changed: "fst (snd (iteration
      \<lparr>ret = True, multi_hand_landmarks = Some [index_up], wait_key = - 1\<rparr> ''STOP'')) \<noteq> ''STOP''"
    by code_simp
  have sel: "multi_hand_landmarks
      \<lparr>ret = True, multi_hand_landmarks = Some [index_up], wait_key = - 1\<rparr> = Some [index_up]"
    by simp
  from changed show ?thesis
    using latched_command_invariant
      [of "[\<lparr>ret = True, multi_hand_landmarks = Some [index_up], wait_key = - 1\<rparr>,
            \<lparr>ret = True, multi_hand_landmarks = Some [three_up], wait_key = - 1\<rparr>]" "[]"
          "\<lparr>ret = True, multi_hand_landmarks = Some [index_up], wait_key = - 1\<rparr>" "''STOP''"]
    unfolding sel by blast
qed

section \<open>Only the first 21 landmarks are read\<close>

lemma length_append_hand:
  "length (append_hand lm_list h) = length lm_list + length h"
  by (simp add: append_hand_def enumerate_eq_zip)

lemma foldl_append_hand:
  "foldl append_hand acc hands = acc @ foldl append_hand [] hands"
proof (induction hands arbitrary: acc)
  case Nil
  then show ?case by simp
next
  case (Cons h hands)
  have "foldl append_hand (append_hand acc h) hands =
        append_hand acc h @ foldl append_hand [] hands"
    by (rule Cons.IH)
  moreover have "foldl append_hand (append_hand [] h) hands =
        append_hand [] h @ foldl append_hand [] hands"
    by (rule Cons.IH)
  moreover have "append_hand acc h = acc @ append_hand [] h"
    by (simp add: append_hand_def)
  ultimately show ?case by simp
qed

lemma collect_landmarks_first:
  "collect_landmarks (Some (h # others)) = append_hand [] h @ foldl append_hand [] others"
  using foldl_append_hand [of "append_hand [] h" others]
  by (simp add: collect_landmarks_def)

lemma take_first_hand:
  assumes "length h = 21"
  shows "take 21 (collect_landmarks (Some (h # others))) = append_hand [] h"
  using assms length_append_hand [of "[]" h]
  by (simp add: collect_landmarks_first)

lemma interpret_gesture_take:
  "interpret_gesture (take 21 lm_list) c = interpret_gesture lm_list c"
  by (simp add: interpret_gesture_def extract_fingers_take)

text \<open>
  Claim C9. Two landmark lists with the same first 21 entries give the same fingers, or the
  same exception, and the same command. In particular, when the first hand of a frame has
  21 landmarks, the hands after it change nothing in the turn of the loop.
\<close>

theorem only_first_21_landmarks:
  "(take 21 lm_list = take 21 lm_list' \<longrightarrow>
      extract_fingers lm_list = extract_fingers lm_list' \<and>
      interpret_gesture lm_list c = interpret_gesture lm_list' c) \<and>
   (length h = 21 \<longrightarrow>
      iteration (f\<lparr>multi_hand_landmarks := Some (h # others)\<rparr>) c =
      iteration (f\<lparr>multi_hand_landmarks := Some (h # others')\<rparr>) c)"
proof (intro conjI impI)
  assume eq: "take 21 lm_list = take 21 lm_list'"
  show "extract_fingers lm_list = extract_fingers lm_list'"
    using extract_fingers_take [of lm_list] extract_fingers_take [of lm_list'] eq by simp
  show "interpret_gesture lm_list c = interpret_gesture lm_list' c"
    using interpret_gesture_take [of lm_list c] interpret_gesture_take [of lm_list' c] eq
    by simp
next
  assume len: "length h = 21"
  have "interpret_gesture (collect_landmarks (Some (h # others))) c =
        interpret_gesture (append_hand [] h) c"
    using interpret_gesture_take [of "collect_landmarks (Some (h # others))" c]
    by (simp only: take_first_hand [OF len])
  moreover have "interpret_gesture (collect_landmarks (Some (h # others'))) c =
        interpret_gesture (append_hand [] h) c"
    using interpret_gesture_take [of "collect_landmarks (Some (h # others'))" c]
    by (simp only: take_first_hand [OF len])
  ultimately show "iteration (f\<lparr>multi_hand_landmarks := Some (h # others)\<rparr>) c =
      iteration (f\<lparr>multi_hand_landmarks := Some (h # others')\<rparr>) c"
    by (simp add: iteration_def Let_def split: sum.splits)
qed

theorem only_first_21_landmarks_witness:
  "take 21 (collect_landmarks (Some [index_up, fist])) =
     take 21 (collect_landmarks (Some [index_up, three_up, fist])) \<and>
   collect_landmarks (Some [index_up, fist]) \<noteq>
     collect_landmarks (Some [index_up, three_up, fist]) \<and>
   extract_fingers (collect_landmarks (Some [index_up, fist])) =
     extract_fingers (collect_landmarks (Some [index_up, three_up, fist])) \<and>
   length index_up = 21 \<and>
   iteration \<lparr>ret = True, multi_hand_landmarks = Some [index_up, fist], wait_key = - 1\<rparr> ''STOP'' =
   iteration \<lparr>ret = True, multi_hand_landmarks = Some [index_up, three_up, fist], wait_key = - 1\<rparr>
     ''STOP''"
proof -
  have a: "take 21 (collect_landmarks (Some [index_up, fist])) =
     take 21 (collect_landmarks (Some [index_up, three_up, fist]))"
    by code_simp
  have b: "collect_landmarks (Some [index_up, fist]) \<noteq>
     collect_landmarks (Some [index_up, three_up, fist])"
    by code_simp
  have c: "length index_up = 21"
    by code_simp
  from a b c show ?thesis
    using only_first_21_landmarks [where lm_list = "collect_landmarks (Some [index_up, fist])"
        and lm_list' = "collect_landmarks (Some [index_up, three_up, fist])" and c = "''STOP''"
        and h = index_up and others = "[fist]" and others' = "[three_up, fist]"
        and f = "\<lparr>ret = True, multi_hand_landmarks = None, wait_key = - 1\<rparr>"]
    by simp
qed

section \<open>Bounds on the velocities\<close>

text \<open>
  Claim C10. For each of the four commands the dispatch sets the left and then the right
  motor, to velocities of the same absolute value, each between -2.0 and 2.0.
\<close>

theorem velocities_symmetric_and_bounded:
  "c \<in> set commands \<Longrightarrow>
   \<exists>l r. send_command c =
       [SetJointTargetVelocity left_motor l, SetJointTargetVelocity right_motor r] \<and>
     \<bar>l\<bar> = \<bar>r\<bar> \<and> - 2 \<le> l \<and> l \<le> 2 \<and> - 2 \<le> r \<and> r \<le> 2"
  by (auto simp: commands_def send_command_def)

theorem velocities_symmetric_and_bounded_witness:
  "''TURN'' \<in> set commands \<and>
   (\<exists>l r. send_command ''TURN'' =
       [SetJointTargetVelocity left_motor l, SetJointTargetVelocity right_motor r] \<and>
     \<bar>l\<bar> = \<bar>r\<bar> \<and> - 2 \<le> l \<and> l \<le> 2 \<and> - 2 \<le> r \<and> r \<le> 2)"
proof -
  have "''TURN'' \<in> set commands"
    by (simp add: commands_def)
  then show ?thesis
    using velocities_symmetric_and_bounded [of "''TURN''"] by simp
qed

end
